theory Spec2Isabelle
  imports Complex_Main
begin

section \<open>Credit report analyzer: the analysis core of test2/server.js\<close>

text \<open>
  The embedding follows \<^verbatim>\<open>analyzeTextContent\<close> and \<^verbatim>\<open>parsePaymentGrid\<close> of
  \<^verbatim>\<open>src/test2/server.js\<close>.

  Numbers: the coordinates \<^verbatim>\<open>transform[4]\<close> and \<^verbatim>\<open>transform[5]\<close> are JavaScript
  numbers. They are modelled as rationals, the values of finite numbers; NaN and the
  infinities are outside the model, and \<^verbatim>\<open>Infinity\<close> as the initial value of
  \<^verbatim>\<open>minDistance\<close> is \<open>None\<close> of type \<open>rat option\<close>. Inside the analysis the
  subtractions, comparisons and \<^verbatim>\<open>Math.abs\<close> are computed exactly. The addition that
  shifts a window is modelled with its IEEE-754 rounding, in the section on shifts.

  Strings: a string is a list of 8-bit characters, read as the code units below 256
  (Latin-1); code units from 256 on are outside the model. The white space removed by
  \<^verbatim>\<open>trim\<close> is TAB, LF, VT, FF, CR, SPACE and the no-break space. \<^verbatim>\<open>toUpperCase\<close>
  maps the letters a-z and the lower-case letters of Latin-1 to their capitals and the
  sharp s to "SS"; the micro sign and y with diaeresis, whose capitals are code units
  from 256 on, are left as they are.

  Sorting: \<^verbatim>\<open>Array.prototype.sort\<close> is stable, and the comparators of the source order by
  one numeric key, so a sort is \<open>sort_key\<close> (stable insertion sort) on that key,
  negated where the source sorts descending.
\<close>

subsection \<open>String primitives\<close>

definition is_ws :: "char \<Rightarrow> bool" where
  "is_ws c = (c = CHR 0x09 \<or> c = CHR 0x0A \<or> c = CHR 0x0B \<or> c = CHR 0x0C
              \<or> c = CHR 0x0D \<or> c = CHR '' '' \<or> c = CHR 0xA0)"

definition js_trim :: "string \<Rightarrow> string" where
  "js_trim s = rev (dropWhile is_ws (rev (dropWhile is_ws s)))"

fun starts_with :: "string \<Rightarrow> string \<Rightarrow> bool" where
  "starts_with s [] = True"
| "starts_with [] (p # ps) = False"
| "starts_with (c # cs) (p # ps) = (c = p \<and> starts_with cs ps)"

text \<open>\<^verbatim>\<open>s.includes(p)\<close>: \<open>p\<close> occurs in \<open>s\<close> as a contiguous substring.\<close>

fun js_includes :: "string \<Rightarrow> string \<Rightarrow> bool" where
  "js_includes [] p = (p = [])"
| "js_includes (c # cs) p = (starts_with (c # cs) p \<or> js_includes cs p)"

text \<open>The upper-casing of one character: a-z (97 to 122) and the Latin-1 letters 224 to
  254 other than the division sign (247) lose 32; the sharp s (223) becomes "SS".\<close>

definition upper_char :: "char \<Rightarrow> string" where
  "upper_char c =
     (let n = (of_char c :: nat) in
      if (97 \<le> n \<and> n \<le> 122) \<or> (224 \<le> n \<and> n \<le> 254 \<and> n \<noteq> 247)
      then [char_of (n - 32)]
      else if n = 223 then ''SS''
      else [c])"

definition toUpperCase :: "string \<Rightarrow> string" where
  "toUpperCase s = concat (map upper_char s)"

definition is_digit :: "char \<Rightarrow> bool" where
  "is_digit c = ((48::nat) \<le> of_char c \<and> of_char c \<le> (57::nat))"

text \<open>\<^verbatim>\<open>/^\d{2}$/.test(s)\<close>: exactly two decimal digits.\<close>

definition two_digits :: "string \<Rightarrow> bool" where
  "two_digits s = (case s of [a, b] \<Rightarrow> is_digit a \<and> is_digit b | _ \<Rightarrow> False)"

definition month_names :: "string list" where
  "month_names = [''Jan'', ''Feb'', ''Mar'', ''Apr'', ''May'', ''Jun'',
                  ''Jul'', ''Aug'', ''Sep'', ''Oct'', ''Nov'', ''Dec'']"

subsection \<open>Data\<close>

text \<open>A text item of PDF.js: its string, the page number added by the extraction, and the
  two translation entries of its transform, \<^verbatim>\<open>transform[4]\<close> (x) and
  \<^verbatim>\<open>transform[5]\<close> (y).\<close>

record text_item =
  str :: string
  page :: nat
  transform4 :: rat
  transform5 :: rat

record header =
  month :: string
  hx :: rat
  year :: string

text \<open>The grid: \<^verbatim>\<open>data\<close> is an object with the bureau names as keys; its keys are
  enumerated in insertion order, so it is an association list in that order.\<close>

record grid =
  headers :: "header list"
  data :: "(string \<times> string list) list"

text \<open>The value stored in \<^verbatim>\<open>status\<close>: a string, or, when the lookup in \<^verbatim>\<open>LEGEND\<close>
  finds a property that the object inherits from \<^verbatim>\<open>Object.prototype\<close>, that member
  (a function, or the prototype object for \<^verbatim>\<open>__proto__\<close>), named here by its key.\<close>

datatype status_value = Text string | ProtoMember string

record issue =
  bureau :: string
  imonth :: string
  iyear :: string
  status :: status_value

record account =
  name :: string
  issues :: "issue list"

datatype error = UnsupportedFormat

subsection \<open>The status legend\<close>

definition LEGEND :: "(string \<times> string) list" where
  "LEGEND = [(''OK'', ''Current''),
             (''30'', ''30 Days Late''),
             (''60'', ''60 Days Late''),
             (''90'', ''90 Days Late''),
             (''120'', ''120 Days Late''),
             (''150'', ''150 Days Late''),
             (''180'', ''180 Days Late''),
             (''CO'', ''Chargeoff or Collection''),
             (''RF'', ''Repossession or Foreclosure''),
             (''PP'', ''Payment Plan''),
             (''VS'', ''Voluntary Surrender''),
             (''NDP'', ''No Data Provided'')]"

text \<open>\<^verbatim>\<open>LEGEND\<close> is an object literal, so a property read that finds no own property
  goes on to \<^verbatim>\<open>Object.prototype\<close>, whose string-keyed members are these.\<close>

definition object_prototype_keys :: "string list" where
  "object_prototype_keys =
     [''constructor'', ''__defineGetter__'', ''__defineSetter__'', ''hasOwnProperty'',
      ''__lookupGetter__'', ''__lookupSetter__'', ''isPrototypeOf'',
      ''propertyIsEnumerable'', ''toString'', ''valueOf'', ''__proto__'',
      ''toLocaleString'']"

text \<open>\<^verbatim>\<open>LEGEND[code]\<close>; \<open>None\<close> is \<^verbatim>\<open>undefined\<close>.\<close>

definition legend_get :: "string \<Rightarrow> status_value option" where
  "legend_get code =
     (case map_of LEGEND code of
        Some label \<Rightarrow> Some (Text label)
      | None \<Rightarrow> if code \<in> set object_prototype_keys then Some (ProtoMember code) else None)"

text \<open>\<^verbatim>\<open>LEGEND[code] || `Unknown Code: ${code}`\<close>: every label of the table is a
  non-empty string and every inherited member is an object, so each value found is truthy.\<close>

definition status_label :: "string \<Rightarrow> status_value" where
  "status_label code =
     (case legend_get code of
        Some v \<Rightarrow> v
      | None \<Rightarrow> Text (''Unknown Code: '' @ code))"

subsection \<open>parsePaymentGrid\<close>

text \<open>\<^verbatim>\<open>Math.round\<close>: the nearest integer, a half rounded up.\<close>

definition math_round :: "rat \<Rightarrow> int" where
  "math_round v = \<lfloor>v + 1 / 2\<rfloor>"

text \<open>The object \<^verbatim>\<open>rows\<close>, keyed by the rounded y, as an association list in insertion
  order. A new key is added at the end; an item of a known key is pushed on its row.\<close>

fun rows_push :: "(int \<times> text_item list) list \<Rightarrow> int \<Rightarrow> text_item \<Rightarrow> (int \<times> text_item list) list"
  where
  "rows_push [] k item = [(k, [item])]"
| "rows_push ((k', row) # rest) k item =
     (if k' = k then (k', row @ [item]) # rest else (k', row) # rows_push rest k item)"

definition group_rows :: "text_item list \<Rightarrow> (int \<times> text_item list) list" where
  "group_rows gridItems =
     foldl (\<lambda>rows item. rows_push rows (math_round (transform5 item)) item) [] gridItems"

text \<open>\<^verbatim>\<open>Object.values\<close> enumerates the keys that are array indices (the integers from 0
  to 2^32 - 2) in ascending order, then the other keys in insertion order.\<close>

definition is_array_index :: "int \<Rightarrow> bool" where
  "is_array_index k = (0 \<le> k \<and> k < 4294967295)"

definition object_values :: "(int \<times> 'a) list \<Rightarrow> 'a list" where
  "object_values rows =
     map snd (sort_key fst (filter (\<lambda>kv. is_array_index (fst kv)) rows))
     @ map snd (filter (\<lambda>kv. \<not> is_array_index (fst kv)) rows)"

definition sortedRows :: "text_item list \<Rightarrow> text_item list list" where
  "sortedRows gridItems =
     sort_key (\<lambda>row. - transform5 (hd row)) (object_values (group_rows gridItems))"

definition is_month_item :: "text_item \<Rightarrow> bool" where
  "is_month_item item = (js_trim (str item) \<in> set month_names)"

definition is_year_item :: "text_item \<Rightarrow> bool" where
  "is_year_item item = two_digits (js_trim (str item))"

definition monthRow :: "text_item list list \<Rightarrow> text_item list option" where
  "monthRow rows = List.find (\<lambda>row. list_ex is_month_item row) rows"

definition yearRow :: "text_item list list \<Rightarrow> text_item list option" where
  "yearRow rows = List.find (\<lambda>row. list_ex is_year_item row) rows"

definition bureauRow :: "string \<Rightarrow> text_item list list \<Rightarrow> text_item list option" where
  "bureauRow bureauName rows =
     List.find (\<lambda>row. list_ex (\<lambda>item. js_includes (str item) bureauName) row) rows"

definition make_headers :: "text_item list \<Rightarrow> header list" where
  "make_headers mrow =
     sort_key hx
       (map (\<lambda>monthItem. \<lparr>month = js_trim (str monthItem), hx = transform4 monthItem,
                           year = ''N/A''\<rparr>) mrow)"

text \<open>\<^verbatim>\<open>distance < minDistance\<close>, where \<^verbatim>\<open>minDistance\<close> starts as \<^verbatim>\<open>Infinity\<close>.\<close>

definition below :: "rat \<Rightarrow> rat option \<Rightarrow> bool" where
  "below distance minDistance =
     (case minDistance of None \<Rightarrow> True | Some m \<Rightarrow> distance < m)"

text \<open>The inner \<^verbatim>\<open>headers.forEach\<close> of the year and of the bureau loop: the running
  index, \<^verbatim>\<open>closestIndex\<close> (starting at -1) and \<^verbatim>\<open>minDistance\<close>.\<close>

fun closest_loop :: "rat \<Rightarrow> header list \<Rightarrow> nat \<Rightarrow> int \<Rightarrow> rat option \<Rightarrow> int" where
  "closest_loop v [] index closestIndex minDistance = closestIndex"
| "closest_loop v (h # hs) index closestIndex minDistance =
     (let distance = \<bar>hx h - v\<bar> in
      if below distance minDistance
      then closest_loop v hs (Suc index) (int index) (Some distance)
      else closest_loop v hs (Suc index) closestIndex minDistance)"

definition closest_index :: "header list \<Rightarrow> rat \<Rightarrow> int" where
  "closest_index hs v = closest_loop v hs 0 (-1) None"

definition assign_year :: "header list \<Rightarrow> text_item \<Rightarrow> header list" where
  "assign_year hs yearItem =
     (let closestMonthIndex = closest_index hs (transform4 yearItem) in
      if closestMonthIndex \<noteq> -1
      then hs[nat closestMonthIndex :=
                (hs ! nat closestMonthIndex)\<lparr>year := ''20'' @ js_trim (str yearItem)\<rparr>]
      else hs)"

definition assign_years :: "header list \<Rightarrow> text_item list \<Rightarrow> header list" where
  "assign_years hs yrow = foldl assign_year hs yrow"

definition set_status :: "header list \<Rightarrow> string list \<Rightarrow> text_item \<Rightarrow> string list" where
  "set_status hs statuses statusItem =
     (let closestHeaderIndex = closest_index hs (transform4 statusItem) in
      if closestHeaderIndex \<noteq> -1
      then statuses[nat closestHeaderIndex := js_trim (str statusItem)]
      else statuses)"

definition bureau_statuses :: "header list \<Rightarrow> string \<Rightarrow> text_item list \<Rightarrow> string list" where
  "bureau_statuses hs bureauName brow =
     (let statusItems = filter (\<lambda>item. \<not> js_includes (str item) bureauName) brow in
      foldl (set_status hs) (replicate (length hs) '''') statusItems)"

text \<open>\<^verbatim>\<open>processBureauRow\<close>: nothing for a row that was not found, otherwise the property
  \<^verbatim>\<open>data[bureauName]\<close> is added (each bureau is processed once, so the key is new).\<close>

definition processBureauRow ::
  "header list \<Rightarrow> (string \<times> string list) list \<Rightarrow> text_item list option \<Rightarrow> string
     \<Rightarrow> (string \<times> string list) list" where
  "processBureauRow hs d brow bureauName =
     (case brow of
        None \<Rightarrow> d
      | Some r \<Rightarrow> d @ [(bureauName, bureau_statuses hs bureauName r)])"

definition empty_grid :: grid where
  "empty_grid = \<lparr>headers = [], data = []\<rparr>"

definition parsePaymentGrid :: "text_item list \<Rightarrow> grid" where
  "parsePaymentGrid gridItems =
     (if length gridItems = 0 then empty_grid
      else
        let rows = sortedRows gridItems in
        case (monthRow rows, yearRow rows) of
          (Some mrow, Some yrow) \<Rightarrow>
            let hs = assign_years (make_headers mrow) yrow;
                d1 = processBureauRow hs [] (bureauRow ''TransUnion'' rows) ''TransUnion'';
                d2 = processBureauRow hs d1 (bureauRow ''Experian'' rows) ''Experian'';
                d3 = processBureauRow hs d2 (bureauRow ''Equifax'' rows) ''Equifax''
            in \<lparr>headers = hs, data = d3\<rparr>
        | _ \<Rightarrow> empty_grid)"

subsection \<open>analyzeTextContent\<close>

definition is_marker :: "text_item \<Rightarrow> bool" where
  "is_marker item = js_includes (str item) ''Two-Year payment history''"

definition is_name_candidate :: "text_item \<Rightarrow> text_item \<Rightarrow> bool" where
  "is_name_candidate marker item =
     (page item = page marker \<and> transform5 item > transform5 marker
      \<and> length (js_trim (str item)) > 2 \<and> toUpperCase (str item) = str item)"

definition potentialAccountNames :: "text_item list \<Rightarrow> text_item \<Rightarrow> text_item list" where
  "potentialAccountNames textItems marker =
     sort_key (\<lambda>a. - transform5 a) (filter (is_name_candidate marker) textItems)"

fun closest_name_loop ::
  "text_item \<Rightarrow> text_item list \<Rightarrow> text_item option \<Rightarrow> rat option \<Rightarrow> text_item option" where
  "closest_name_loop marker [] closestName minDistance = closestName"
| "closest_name_loop marker (nm # rest) closestName minDistance =
     (let distance = transform5 nm - transform5 marker in
      if distance > 0 \<and> below distance minDistance
      then closest_name_loop marker rest (Some nm) (Some distance)
      else closest_name_loop marker rest closestName minDistance)"

definition accountName :: "text_item list \<Rightarrow> text_item \<Rightarrow> string" where
  "accountName textItems marker =
     (let names = potentialAccountNames textItems marker in
      if length names > 0
      then (case closest_name_loop marker names None None of
              Some closestName \<Rightarrow> js_trim (str closestName)
            | None \<Rightarrow> ''Unknown Account'')
      else ''Unknown Account'')"

definition gridItems :: "text_item list \<Rightarrow> text_item \<Rightarrow> text_item list" where
  "gridItems textItems marker =
     (let gridTop = transform5 marker - 100;
          gridBottom = transform5 marker - 20;
          gridPage = page marker
      in filter (\<lambda>item. page item = gridPage \<and> transform5 item < gridBottom
                          \<and> transform5 item > gridTop) textItems)"

text \<open>\<^verbatim>\<open>grid.headers[index] || { month: 'N/A', year: 'N/A' }\<close>.\<close>

definition header_at :: "header list \<Rightarrow> nat \<Rightarrow> string \<times> string" where
  "header_at hs index =
     (if index < length hs then (month (hs ! index), year (hs ! index))
      else (''N/A'', ''N/A''))"

text \<open>The \<^verbatim>\<open>forEach\<close> over the statuses of one bureau, pushing on
  \<^verbatim>\<open>currentAccount.issues\<close>.\<close>

fun row_issues :: "header list \<Rightarrow> string \<Rightarrow> string list \<Rightarrow> nat \<Rightarrow> issue list \<Rightarrow> issue list"
  where
  "row_issues hs b [] index acc = acc"
| "row_issues hs b (st # rest) index acc =
     (if js_trim st \<noteq> ''OK'' \<and> js_trim st \<noteq> ''''
      then row_issues hs b rest (Suc index)
             (acc @ [\<lparr>bureau = b, imonth = fst (header_at hs index),
                       iyear = snd (header_at hs index),
                       status = status_label (js_trim st)\<rparr>])
      else row_issues hs b rest (Suc index) acc)"

definition grid_issues :: "grid \<Rightarrow> issue list" where
  "grid_issues g =
     (if length (headers g) > 0
      then foldl (\<lambda>acc (b, statuses). row_issues (headers g) b statuses 0 acc) [] (data g)
      else [])"

definition marker_account :: "text_item list \<Rightarrow> text_item \<Rightarrow> account" where
  "marker_account textItems marker =
     \<lparr>name = accountName textItems marker,
      issues = grid_issues (parsePaymentGrid (gridItems textItems marker))\<rparr>"

text \<open>The loop over the markers, pushing each account on \<^verbatim>\<open>accounts\<close>.\<close>

fun marker_loop :: "text_item list \<Rightarrow> text_item list \<Rightarrow> account list \<Rightarrow> account list" where
  "marker_loop textItems [] accounts = accounts"
| "marker_loop textItems (marker # rest) accounts =
     marker_loop textItems rest (accounts @ [marker_account textItems marker])"

definition analyzeTextContent :: "text_item list \<Rightarrow> error + account list" where
  "analyzeTextContent textItems =
     (let paymentHistoryMarkers = filter is_marker textItems in
      if length paymentHistoryMarkers = 0 then Inl UnsupportedFormat
      else Inr (filter (\<lambda>acc. length (issues acc) > 0)
                  (marker_loop textItems paymentHistoryMarkers [])))"

section \<open>Predicates of the specification\<close>


section \<open>Shifting the x-coordinates\<close>

text \<open>
  The coordinates of the program are IEEE-754 binary64 numbers, and a shift of a window is
  computed with the addition of the language, which rounds. This section models that
  addition on rationals, for the claim about shifted windows.
\<close>

text \<open>The number of binary digits of a positive integer.\<close>

function bit_length :: "int \<Rightarrow> int" where
  "bit_length n = (if n \<le> 0 then 0 else 1 + bit_length (n div 2))"
  by auto
termination
  by (relation "measure nat") auto

declare bit_length.simps [simp del]

text \<open>For a positive rational \<open>x\<close>, the integer \<open>k\<close> with \<open>2^k \<le> x < 2^(k+1)\<close>.\<close>

definition floor_log2 :: "rat \<Rightarrow> int" where
  "floor_log2 x =
     (if 1 \<le> x then bit_length \<lfloor>x\<rfloor> - 1
      else - bit_length (\<lceil>1 / x\<rceil> - 1))"

definition pow2 :: "int \<Rightarrow> rat" where
  "pow2 k = (if 0 \<le> k then 2 ^ nat k else 1 / 2 ^ nat (- k))"

text \<open>The nearest integer, a half rounded to the even neighbour.\<close>

definition round_half_even :: "rat \<Rightarrow> int" where
  "round_half_even r =
     (let f = \<lfloor>r\<rfloor>; t = r - of_int f in
      if t < 1 / 2 then f
      else if 1 / 2 < t then f + 1
      else if even f then f else f + 1)"

text \<open>
  The binary64 number nearest to a rational, ties to even: a significand of 53 bits at
  the exponent of the argument, but no exponent below -1074 (the subnormal numbers).
  \<open>None\<close> is the overflow to \<^verbatim>\<open>Infinity\<close>, when the rounded value reaches 2^1024.
\<close>

definition to_double :: "rat \<Rightarrow> rat option" where
  "to_double x =
     (if x = 0 then Some 0
      else
        let e = max (floor_log2 \<bar>x\<bar> - 52) (- 1074);
            m = round_half_even (\<bar>x\<bar> / pow2 e)
        in if 971 < e \<or> (e = 971 \<and> 2 ^ 53 \<le> m) then None
           else Some (sgn x * of_int m * pow2 e))"

text \<open>\<^verbatim>\<open>a + b\<close> on two finite numbers: the exact sum, rounded.\<close>

definition js_add :: "rat \<Rightarrow> rat \<Rightarrow> rat option" where
  "js_add a b = to_double (a + b)"

text \<open>The item, and the header, with \<^verbatim>\<open>x + d\<close> as the program computes it; \<open>None\<close>
  when the sum is not finite.\<close>

definition shift_item :: "rat \<Rightarrow> text_item \<Rightarrow> text_item option" where
  "shift_item d item =
     map_option (\<lambda>v. item\<lparr>transform4 := v\<rparr>) (js_add (transform4 item) d)"

definition shift_header :: "rat \<Rightarrow> header \<Rightarrow> header option" where
  "shift_header d h = map_option (\<lambda>v. h\<lparr>hx := v\<rparr>) (js_add (hx h) d)"

text \<open>The window with every item shifted, when every sum is finite.\<close>

fun shift_window :: "rat \<Rightarrow> text_item list \<Rightarrow> text_item list option" where
  "shift_window d [] = Some []"
| "shift_window d (item # rest) =
     (case shift_item d item of
        None \<Rightarrow> None
      | Some item' \<Rightarrow> map_option (\<lambda>rest'. item' # rest') (shift_window d rest))"

fun shift_headers :: "rat \<Rightarrow> header list \<Rightarrow> header list option" where
  "shift_headers d [] = Some []"
| "shift_headers d (h # rest) =
     (case shift_header d h of
        None \<Rightarrow> None
      | Some h' \<Rightarrow> map_option (\<lambda>rest'. h' # rest') (shift_headers d rest))"

text \<open>The item and the header moved by exactly \<open>d\<close>: what the shift gives when the sum is
  not rounded.\<close>

definition moved_item :: "rat \<Rightarrow> text_item \<Rightarrow> text_item" where
  "moved_item d item = item\<lparr>transform4 := transform4 item + d\<rparr>"

definition moved_header :: "rat \<Rightarrow> header \<Rightarrow> header" where
  "moved_header d h = h\<lparr>hx := hx h + d\<rparr>"

section \<open>Example inputs\<close>

text \<open>A stream with no marker: the phrase differs from the sentinel in its capitals.\<close>

definition no_marker_items :: "text_item list" where
  "no_marker_items =
     [\<lparr>str = ''CAPITAL ONE'', page = 1, transform4 = 50, transform5 = 600\<rparr>,
      \<lparr>str = ''Two-Year Payment History'', page = 1, transform4 = 50, transform5 = 500\<rparr>,
      \<lparr>str = ''Jan'', page = 1, transform4 = 100, transform5 = 470\<rparr>]"

text \<open>Two markers on two pages; the window of the second has a month row and a bureau
  row but no item of two digits, so no year row.\<close>

definition two_marker_items :: "text_item list" where
  "two_marker_items =
     [\<lparr>str = ''ACME BANK'', page = 1, transform4 = 40, transform5 = 620\<rparr>,
      \<lparr>str = ''Two-Year payment history'', page = 1, transform4 = 40, transform5 = 600\<rparr>,
      \<lparr>str = ''Jan'', page = 1, transform4 = 100, transform5 = 570\<rparr>,
      \<lparr>str = ''Feb'', page = 1, transform4 = 150, transform5 = 570\<rparr>,
      \<lparr>str = ''23'', page = 1, transform4 = 100, transform5 = 560\<rparr>,
      \<lparr>str = ''23'', page = 1, transform4 = 150, transform5 = 560\<rparr>,
      \<lparr>str = ''TransUnion'', page = 1, transform4 = 40, transform5 = 550\<rparr>,
      \<lparr>str = ''30'', page = 1, transform4 = 100, transform5 = 550\<rparr>,
      \<lparr>str = ''OK'', page = 1, transform4 = 150, transform5 = 550\<rparr>,
      \<lparr>str = ''Two-Year payment history (cont.)'', page = 2, transform4 = 40, transform5 = 600\<rparr>,
      \<lparr>str = ''Jan'', page = 2, transform4 = 100, transform5 = 570\<rparr>,
      \<lparr>str = ''Feb'', page = 2, transform4 = 150, transform5 = 570\<rparr>,
      \<lparr>str = ''Experian'', page = 2, transform4 = 40, transform5 = 550\<rparr>,
      \<lparr>str = ''CO'', page = 2, transform4 = 100, transform5 = 550\<rparr>]"

definition first_marker :: text_item where
  "first_marker = \<lparr>str = ''Two-Year payment history'', page = 1, transform4 = 40, transform5 = 600\<rparr>"

definition second_marker :: text_item where
  "second_marker =
     \<lparr>str = ''Two-Year payment history (cont.)'', page = 2, transform4 = 40, transform5 = 600\<rparr>"

text \<open>Three accounts on one page; every status of the second is OK.\<close>

definition three_marker_items :: "text_item list" where
  "three_marker_items =
     [\<lparr>str = ''ALPHA BANK'', page = 1, transform4 = 40, transform5 = 720\<rparr>,
      \<lparr>str = ''Two-Year payment history'', page = 1, transform4 = 40, transform5 = 700\<rparr>,
      \<lparr>str = ''Jan'', page = 1, transform4 = 100, transform5 = 670\<rparr>,
      \<lparr>str = ''23'', page = 1, transform4 = 100, transform5 = 660\<rparr>,
      \<lparr>str = ''Equifax'', page = 1, transform4 = 40, transform5 = 650\<rparr>,
      \<lparr>str = ''CO'', page = 1, transform4 = 100, transform5 = 650\<rparr>,
      \<lparr>str = ''BETA CARD'', page = 1, transform4 = 40, transform5 = 520\<rparr>,
      \<lparr>str = ''Two-Year payment history'', page = 1, transform4 = 40, transform5 = 500\<rparr>,
      \<lparr>str = ''Jan'', page = 1, transform4 = 100, transform5 = 470\<rparr>,
      \<lparr>str = ''23'', page = 1, transform4 = 100, transform5 = 460\<rparr>,
      \<lparr>str = ''Equifax'', page = 1, transform4 = 40, transform5 = 450\<rparr>,
      \<lparr>str = '' OK '', page = 1, transform4 = 100, transform5 = 450\<rparr>,
      \<lparr>str = ''GAMMA LOAN'', page = 1, transform4 = 40, transform5 = 320\<rparr>,
      \<lparr>str = ''Two-Year payment history'', page = 1, transform4 = 40, transform5 = 300\<rparr>,
      \<lparr>str = ''Jan'', page = 1, transform4 = 100, transform5 = 270\<rparr>,
      \<lparr>str = ''23'', page = 1, transform4 = 100, transform5 = 260\<rparr>,
      \<lparr>str = ''Equifax'', page = 1, transform4 = 40, transform5 = 250\<rparr>,
      \<lparr>str = ''90'', page = 1, transform4 = 100, transform5 = 250\<rparr>]"

text \<open>A window whose month row is not in ascending x order in the stream.\<close>

definition unsorted_month_items :: "text_item list" where
  "unsorted_month_items =
     [\<lparr>str = ''Mar'', page = 1, transform4 = 200, transform5 = 470\<rparr>,
      \<lparr>str = ''Jan'', page = 1, transform4 = 100, transform5 = 470\<rparr>,
      \<lparr>str = ''Feb'', page = 1, transform4 = 150, transform5 = 470\<rparr>,
      \<lparr>str = ''24'', page = 1, transform4 = 100, transform5 = 460\<rparr>]"




text \<open>A TransUnion row in which "30" and then an item of white space are both nearest to
  the first header; the headers and the row as the parser finds them.\<close>

definition overwrite_items :: "text_item list" where
  "overwrite_items =
     [\<lparr>str = ''Jan'', page = 1, transform4 = 100, transform5 = 470\<rparr>,
      \<lparr>str = ''Feb'', page = 1, transform4 = 150, transform5 = 470\<rparr>,
      \<lparr>str = ''23'', page = 1, transform4 = 100, transform5 = 460\<rparr>,
      \<lparr>str = ''23'', page = 1, transform4 = 150, transform5 = 460\<rparr>,
      \<lparr>str = ''TransUnion'', page = 1, transform4 = 10, transform5 = 450\<rparr>,
      \<lparr>str = ''30'', page = 1, transform4 = 98, transform5 = 450\<rparr>,
      \<lparr>str = '' '', page = 1, transform4 = 104, transform5 = 450\<rparr>,
      \<lparr>str = ''OK'', page = 1, transform4 = 150, transform5 = 450\<rparr>]"

definition overwrite_headers :: "header list" where
  "overwrite_headers =
     [\<lparr>month = ''Jan'', hx = 100, year = ''2023''\<rparr>,
      \<lparr>month = ''Feb'', hx = 150, year = ''2023''\<rparr>]"

definition overwrite_row :: "text_item list" where
  "overwrite_row =
     [\<lparr>str = ''TransUnion'', page = 1, transform4 = 10, transform5 = 450\<rparr>,
      \<lparr>str = ''30'', page = 1, transform4 = 98, transform5 = 450\<rparr>,
      \<lparr>str = '' '', page = 1, transform4 = 104, transform5 = 450\<rparr>,
      \<lparr>str = ''OK'', page = 1, transform4 = 150, transform5 = 450\<rparr>]"



text \<open>A bureau row with two codes that the table does not have.\<close>

definition unknown_code_items :: "text_item list" where
  "unknown_code_items =
     [\<lparr>str = ''Two-Year payment history'', page = 1, transform4 = 40, transform5 = 500\<rparr>,
      \<lparr>str = ''Jan'', page = 1, transform4 = 100, transform5 = 470\<rparr>,
      \<lparr>str = ''Feb'', page = 1, transform4 = 150, transform5 = 470\<rparr>,
      \<lparr>str = ''23'', page = 1, transform4 = 100, transform5 = 460\<rparr>,
      \<lparr>str = ''23'', page = 1, transform4 = 150, transform5 = 460\<rparr>,
      \<lparr>str = ''Experian'', page = 1, transform4 = 40, transform5 = 450\<rparr>,
      \<lparr>str = ''XX'', page = 1, transform4 = 100, transform5 = 450\<rparr>,
      \<lparr>str = ''constructor'', page = 1, transform4 = 150, transform5 = 450\<rparr>]"


text \<open>A window in which the item "30" is at the same distance from both headers, and the
  window that the program gets from it by adding the number 0.2 to every x; 0.2 is the
  binary64 number 3602879701896397 / 2^54.\<close>

definition tie_items :: "text_item list" where
  "tie_items =
     [\<lparr>str = ''Jan'', page = 1, transform4 = 100, transform5 = 470\<rparr>,
      \<lparr>str = ''Feb'', page = 1, transform4 = 150, transform5 = 470\<rparr>,
      \<lparr>str = ''23'', page = 1, transform4 = 100, transform5 = 460\<rparr>,
      \<lparr>str = ''23'', page = 1, transform4 = 150, transform5 = 460\<rparr>,
      \<lparr>str = ''TransUnion'', page = 1, transform4 = 10, transform5 = 450\<rparr>,
      \<lparr>str = ''30'', page = 1, transform4 = 125, transform5 = 450\<rparr>]"

definition tie_items_plus_0_2 :: "text_item list" where
  "tie_items_plus_0_2 =
     [\<lparr>str = ''Jan'', page = 1, transform4 = 7050948166601933 / 70368744177664,
       transform5 = 470\<rparr>,
      \<lparr>str = ''Feb'', page = 1, transform4 = 2642346343871283 / 17592186044416,
       transform5 = 470\<rparr>,
      \<lparr>str = ''23'', page = 1, transform4 = 7050948166601933 / 70368744177664,
       transform5 = 460\<rparr>,
      \<lparr>str = ''23'', page = 1, transform4 = 2642346343871283 / 17592186044416,
       transform5 = 460\<rparr>,
      \<lparr>str = ''TransUnion'', page = 1, transform4 = 2871044762448691 / 281474976710656,
       transform5 = 450\<rparr>,
      \<lparr>str = ''30'', page = 1, transform4 = 8810166771043533 / 70368744177664,
       transform5 = 450\<rparr>]"

text \<open>The same window moved by 1/4, which every sum holds exactly.\<close>

definition tie_items_plus_quarter :: "text_item list" where
  "tie_items_plus_quarter =
     [\<lparr>str = ''Jan'', page = 1, transform4 = 401 / 4, transform5 = 470\<rparr>,
      \<lparr>str = ''Feb'', page = 1, transform4 = 601 / 4, transform5 = 470\<rparr>,
      \<lparr>str = ''23'', page = 1, transform4 = 401 / 4, transform5 = 460\<rparr>,
      \<lparr>str = ''23'', page = 1, transform4 = 601 / 4, transform5 = 460\<rparr>,
      \<lparr>str = ''TransUnion'', page = 1, transform4 = 41 / 4, transform5 = 450\<rparr>,
      \<lparr>str = ''30'', page = 1, transform4 = 501 / 4, transform5 = 450\<rparr>]"

section \<open>Properties\<close>

subsection \<open>Rows are never empty\<close>

text \<open>Every row of \<^verbatim>\<open>rows\<close> holds the item that created it, so the read of
  \<^verbatim>\<open>b[0]\<close> and \<^verbatim>\<open>a[0]\<close> in the comparator of the row sort is always in range.\<close>

lemma rows_push_nonempty:
  "\<forall>kv \<in> set rows. snd kv \<noteq> [] \<Longrightarrow> \<forall>kv \<in> set (rows_push rows k item). snd kv \<noteq> []"
  by (induction rows) (force split: if_splits)+

lemma foldl_rows_nonempty:
  "\<forall>kv \<in> set rows. snd kv \<noteq> [] \<Longrightarrow>
   \<forall>kv \<in> set (foldl (\<lambda>rows item. rows_push rows (math_round (transform5 item)) item) rows gi).
     snd kv \<noteq> []"
proof (induction gi arbitrary: rows)
  case Nil
  then show ?case by simp
next
  case (Cons item gi)
  from rows_push_nonempty [OF Cons.prems]
  have "\<forall>kv \<in> set (rows_push rows (math_round (transform5 item)) item). snd kv \<noteq> []" .
  from Cons.IH [OF this] show ?case by simp
qed

lemma sortedRows_nonempty: "row \<in> set (sortedRows gi) \<Longrightarrow> row \<noteq> []"
proof -
  assume r: "row \<in> set (sortedRows gi)"
  have "\<forall>kv \<in> set (group_rows gi). snd kv \<noteq> []"
    unfolding group_rows_def by (rule foldl_rows_nonempty) simp
  moreover from r have "row \<in> snd ` set (group_rows gi)"
    by (auto simp: sortedRows_def object_values_def)
  ultimately show ?thesis by auto
qed

subsection \<open>The loop over the markers\<close>

lemma marker_loop_map:
  "marker_loop textItems ms accounts = accounts @ map (marker_account textItems) ms"
  by (induction ms arbitrary: accounts) simp_all

lemma analyze_Inr:
  "filter is_marker textItems \<noteq> [] \<Longrightarrow>
   analyzeTextContent textItems =
     Inr (filter (\<lambda>acc. issues acc \<noteq> [])
            (map (marker_account textItems) (filter is_marker textItems)))"
  by (simp add: analyzeTextContent_def marker_loop_map)

text \<open>
  Claim C2. A stream in which no item's string includes the sentinel phrase
  "Two-Year payment history" makes the analysis fail with the unsupported-document
  error; the result is the error alone, so no list of accounts, partial or not, is
  returned.
\<close>

theorem no_marker_unsupported:
  assumes "\<forall>item \<in> set textItems. \<not> js_includes (str item) ''Two-Year payment history''"
  shows "analyzeTextContent textItems = Inl UnsupportedFormat
         \<and> (\<forall>accounts. analyzeTextContent textItems \<noteq> Inr accounts)"
proof -
  have "filter is_marker textItems = []"
    using assms by (simp add: is_marker_def)
  then show ?thesis
    by (simp add: analyzeTextContent_def)
qed

theorem no_marker_unsupported_witness:
  "analyzeTextContent no_marker_items = Inl UnsupportedFormat"
proof -
  have h: "\<forall>item \<in> set no_marker_items. \<not> js_includes (str item) ''Two-Year payment history''"
    by (simp add: no_marker_items_def)
  from no_marker_unsupported [OF h] show ?thesis by simp
qed

subsection \<open>Accounts without issues\<close>

lemma row_issues_none:
  "\<forall>s \<in> set sts. js_trim s = ''OK'' \<or> js_trim s = '''' \<Longrightarrow> row_issues hs b sts i acc = acc"
  by (induction sts arbitrary: i acc) auto

lemma foldl_row_issues_none:
  "\<forall>(b, sts) \<in> set d. \<forall>s \<in> set sts. js_trim s = ''OK'' \<or> js_trim s = '''' \<Longrightarrow>
   foldl (\<lambda>acc (b, statuses). row_issues hs b statuses 0 acc) acc0 d = acc0"
  by (induction d arbitrary: acc0) (auto simp: row_issues_none)

lemma grid_issues_none:
  "\<forall>(b, sts) \<in> set (data g). \<forall>s \<in> set sts. js_trim s = ''OK'' \<or> js_trim s = '''' \<Longrightarrow>
   grid_issues g = []"
  by (simp add: grid_issues_def foldl_row_issues_none)

lemma parse_missing_row:
  "monthRow (sortedRows gi) = None \<or> yearRow (sortedRows gi) = None \<Longrightarrow>
   parsePaymentGrid gi = empty_grid"
  by (auto simp: parsePaymentGrid_def Let_def split: option.splits)

lemma grid_issues_empty_grid: "grid_issues empty_grid = []"
  by (simp add: grid_issues_def empty_grid_def)

lemma filter_map_drop:
  "\<not> P (f m) \<Longrightarrow> filter P (map f (filter (\<lambda>x. Q x \<and> x \<noteq> m) xs)) = filter P (map f (filter Q xs))"
  by (induction xs) auto

text \<open>
  Claim C4. When the stream has a marker, the result is the list of the accounts of the
  markers, in the order in which the markers occur in the stream, restricted to the
  accounts that have at least one issue. An account all of whose statuses in the parsed
  grid of its window are "OK" or empty after trimming has no issue and is not in the
  result.
\<close>

theorem results_keep_accounts_with_issues:
  assumes "filter is_marker textItems \<noteq> []"
  shows "analyzeTextContent textItems =
           Inr (filter (\<lambda>acc. issues acc \<noteq> [])
                  (map (marker_account textItems) (filter is_marker textItems)))
         \<and> (\<forall>marker accounts.
               analyzeTextContent textItems = Inr accounts
               \<and> (\<forall>(b, sts) \<in> set (data (parsePaymentGrid (gridItems textItems marker))).
                     \<forall>s \<in> set sts. js_trim s = ''OK'' \<or> js_trim s = '''')
               \<longrightarrow> issues (marker_account textItems marker) = []
                   \<and> marker_account textItems marker \<notin> set accounts)"
proof (intro conjI allI impI)
  show r: "analyzeTextContent textItems =
           Inr (filter (\<lambda>acc. issues acc \<noteq> [])
                  (map (marker_account textItems) (filter is_marker textItems)))"
    using assms by (rule analyze_Inr)
  fix marker accounts
  assume h: "analyzeTextContent textItems = Inr accounts
               \<and> (\<forall>(b, sts) \<in> set (data (parsePaymentGrid (gridItems textItems marker))).
                     \<forall>s \<in> set sts. js_trim s = ''OK'' \<or> js_trim s = '''')"
  then show e: "issues (marker_account textItems marker) = []"
    by (simp add: marker_account_def grid_issues_none)
  from h r have "accounts = filter (\<lambda>acc. issues acc \<noteq> [])
                  (map (marker_account textItems) (filter is_marker textItems))"
    by simp
  with e show "marker_account textItems marker \<notin> set accounts"
    by auto
qed

theorem results_keep_accounts_with_issues_witness:
  "analyzeTextContent three_marker_items =
     Inr [\<lparr>name = ''ALPHA BANK'',
           issues = [\<lparr>bureau = ''Equifax'', imonth = ''Jan'', iyear = ''2023'',
                      status = Text ''Chargeoff or Collection''\<rparr>]\<rparr>,
          \<lparr>name = ''GAMMA LOAN'',
           issues = [\<lparr>bureau = ''Equifax'', imonth = ''Jan'', iyear = ''2023'',
                      status = Text ''90 Days Late''\<rparr>]\<rparr>]"
proof -
  have h: "filter is_marker three_marker_items \<noteq> []"
    by code_simp
  have e: "filter (\<lambda>acc. issues acc \<noteq> [])
             (map (marker_account three_marker_items) (filter is_marker three_marker_items)) =
     [\<lparr>name = ''ALPHA BANK'',
       issues = [\<lparr>bureau = ''Equifax'', imonth = ''Jan'', iyear = ''2023'',
                  status = Text ''Chargeoff or Collection''\<rparr>]\<rparr>,
      \<lparr>name = ''GAMMA LOAN'',
       issues = [\<lparr>bureau = ''Equifax'', imonth = ''Jan'', iyear = ''2023'',
                  status = Text ''90 Days Late''\<rparr>]\<rparr>]"
    by code_simp
  from results_keep_accounts_with_issues [OF h] e show ?thesis
    by simp
qed

text \<open>
  Claim C3. When the rows of a marker's window have no month row or no year row, the grid
  parser returns the empty grid (no header, no data) and the marker's account has no issue.
  No error is raised: with at least one marker in the stream the analysis returns the
  list it would return without this marker, and with two markers, the second lacking the
  row and the first having an issue, the result is the first marker's account alone.
\<close>

theorem missing_row_soft_failure:
  assumes "monthRow (sortedRows (gridItems textItems marker)) = None
           \<or> yearRow (sortedRows (gridItems textItems marker)) = None"
  shows "parsePaymentGrid (gridItems textItems marker) = \<lparr>headers = [], data = []\<rparr>
         \<and> issues (marker_account textItems marker) = []
         \<and> (filter is_marker textItems \<noteq> [] \<longrightarrow>
              analyzeTextContent textItems =
                Inr (filter (\<lambda>acc. issues acc \<noteq> [])
                       (map (marker_account textItems)
                          (filter (\<lambda>m. is_marker m \<and> m \<noteq> marker) textItems))))
         \<and> (\<forall>first. filter is_marker textItems = [first, marker]
                      \<and> issues (marker_account textItems first) \<noteq> []
               \<longrightarrow> analyzeTextContent textItems = Inr [marker_account textItems first])"
proof -
  have g: "parsePaymentGrid (gridItems textItems marker) = empty_grid"
    using assms by (rule parse_missing_row)
  then have e: "issues (marker_account textItems marker) = []"
    by (simp add: marker_account_def grid_issues_empty_grid)
  have c: "analyzeTextContent textItems =
                Inr (filter (\<lambda>acc. issues acc \<noteq> [])
                       (map (marker_account textItems)
                          (filter (\<lambda>m. is_marker m \<and> m \<noteq> marker) textItems)))"
    if "filter is_marker textItems \<noteq> []"
    using that e by (simp add: analyze_Inr filter_map_drop)
  have t: "analyzeTextContent textItems = Inr [marker_account textItems first]"
    if "filter is_marker textItems = [first, marker]"
      and "issues (marker_account textItems first) \<noteq> []" for first
    using that e by (simp add: analyze_Inr)
  from g e c t show ?thesis
    by (simp add: empty_grid_def)
qed

theorem missing_row_soft_failure_witness:
  "analyzeTextContent two_marker_items =
     Inr [\<lparr>name = ''ACME BANK'',
           issues = [\<lparr>bureau = ''TransUnion'', imonth = ''Jan'', iyear = ''2023'',
                      status = Text ''30 Days Late''\<rparr>]\<rparr>]"
proof -
  have h: "monthRow (sortedRows (gridItems two_marker_items second_marker)) = None
           \<or> yearRow (sortedRows (gridItems two_marker_items second_marker)) = None"
    by code_simp
  have m: "filter is_marker two_marker_items = [first_marker, second_marker]"
    by code_simp
  have a: "marker_account two_marker_items first_marker =
             \<lparr>name = ''ACME BANK'',
              issues = [\<lparr>bureau = ''TransUnion'', imonth = ''Jan'', iyear = ''2023'',
                         status = Text ''30 Days Late''\<rparr>]\<rparr>"
    by code_simp
  have "filter is_marker two_marker_items = [first_marker, second_marker]
          \<and> issues (marker_account two_marker_items first_marker) \<noteq> []
        \<longrightarrow> analyzeTextContent two_marker_items =
              Inr [marker_account two_marker_items first_marker]"
    using missing_row_soft_failure [OF h] by blast
  with m a show ?thesis
    by simp
qed

subsection \<open>The nearest header\<close>

text \<open>The loop returns its starting index when no header is below the starting distance,
  and otherwise the first index at which the distance is least.\<close>

lemma closest_loop_result:
  "(closest_loop v hs idx ci md = ci \<and> (\<forall>h \<in> set hs. \<not> below \<bar>hx h - v\<bar> md))
   \<or> (\<exists>k < length hs.
         closest_loop v hs idx ci md = int (idx + k)
         \<and> below \<bar>hx (hs ! k) - v\<bar> md
         \<and> (\<forall>j < length hs. \<bar>hx (hs ! k) - v\<bar> \<le> \<bar>hx (hs ! j) - v\<bar>)
         \<and> (\<forall>j < k. \<bar>hx (hs ! k) - v\<bar> < \<bar>hx (hs ! j) - v\<bar>))"
proof (induction hs arbitrary: idx ci md)
  case Nil
  then show ?case by simp
next
  case (Cons h hs)
  let ?d = "\<bar>hx h - v\<bar>"
  show ?case
  proof (cases "below ?d md")
    case True
    then have step: "closest_loop v (h # hs) idx ci md = closest_loop v hs (Suc idx) (int idx) (Some ?d)"
      by simp
    from Cons.IH [of "Suc idx" "int idx" "Some ?d"]
    show ?thesis
    proof (elim disjE exE conjE)
      assume r: "closest_loop v hs (Suc idx) (int idx) (Some ?d) = int idx"
        and a: "\<forall>h' \<in> set hs. \<not> below \<bar>hx h' - v\<bar> (Some ?d)"
      have m: "\<forall>j < length (h # hs). ?d \<le> \<bar>hx ((h # hs) ! j) - v\<bar>"
      proof (intro allI impI)
        fix j assume "j < length (h # hs)"
        then show "?d \<le> \<bar>hx ((h # hs) ! j) - v\<bar>"
          using a by (cases j) (auto simp: below_def not_less)
      qed
      have "0 < length (h # hs) \<and> closest_loop v (h # hs) idx ci md = int (idx + 0)
            \<and> below \<bar>hx ((h # hs) ! 0) - v\<bar> md
            \<and> (\<forall>j < length (h # hs). \<bar>hx ((h # hs) ! 0) - v\<bar> \<le> \<bar>hx ((h # hs) ! j) - v\<bar>)
            \<and> (\<forall>j < 0. \<bar>hx ((h # hs) ! 0) - v\<bar> < \<bar>hx ((h # hs) ! j) - v\<bar>)"
        using step r True m by simp
      then show ?thesis by blast
    next
      fix k
      assume k: "k < length hs"
        and r: "closest_loop v hs (Suc idx) (int idx) (Some ?d) = int (Suc idx + k)"
        and b: "below \<bar>hx (hs ! k) - v\<bar> (Some ?d)"
        and m: "\<forall>j < length hs. \<bar>hx (hs ! k) - v\<bar> \<le> \<bar>hx (hs ! j) - v\<bar>"
        and f: "\<forall>j < k. \<bar>hx (hs ! k) - v\<bar> < \<bar>hx (hs ! j) - v\<bar>"
      from b have lt: "\<bar>hx (hs ! k) - v\<bar> < ?d"
        by (simp add: below_def)
      have b': "below \<bar>hx ((h # hs) ! Suc k) - v\<bar> md"
        using lt True by (auto simp: below_def split: option.splits)
      have m': "\<forall>j < length (h # hs). \<bar>hx ((h # hs) ! Suc k) - v\<bar> \<le> \<bar>hx ((h # hs) ! j) - v\<bar>"
      proof (intro allI impI)
        fix j assume "j < length (h # hs)"
        then show "\<bar>hx ((h # hs) ! Suc k) - v\<bar> \<le> \<bar>hx ((h # hs) ! j) - v\<bar>"
          using m lt by (cases j) auto
      qed
      have f': "\<forall>j < Suc k. \<bar>hx ((h # hs) ! Suc k) - v\<bar> < \<bar>hx ((h # hs) ! j) - v\<bar>"
      proof (intro allI impI)
        fix j assume "j < Suc k"
        then show "\<bar>hx ((h # hs) ! Suc k) - v\<bar> < \<bar>hx ((h # hs) ! j) - v\<bar>"
          using f lt by (cases j) auto
      qed
      have "Suc k < length (h # hs) \<and> closest_loop v (h # hs) idx ci md = int (idx + Suc k)"
        using k step r by simp
      with b' m' f' show ?thesis by blast
    qed
  next
    case False
    then have step: "closest_loop v (h # hs) idx ci md = closest_loop v hs (Suc idx) ci md"
      by simp
    from False obtain m0 where md: "md = Some m0" and ge: "m0 \<le> ?d"
      by (auto simp: below_def not_less split: option.splits)
    from Cons.IH [of "Suc idx" ci md]
    show ?thesis
    proof (elim disjE exE conjE)
      assume "closest_loop v hs (Suc idx) ci md = ci"
        and "\<forall>h' \<in> set hs. \<not> below \<bar>hx h' - v\<bar> md"
      with step False show ?thesis by simp
    next
      fix k
      assume k: "k < length hs"
        and r: "closest_loop v hs (Suc idx) ci md = int (Suc idx + k)"
        and b: "below \<bar>hx (hs ! k) - v\<bar> md"
        and m: "\<forall>j < length hs. \<bar>hx (hs ! k) - v\<bar> \<le> \<bar>hx (hs ! j) - v\<bar>"
        and f: "\<forall>j < k. \<bar>hx (hs ! k) - v\<bar> < \<bar>hx (hs ! j) - v\<bar>"
      from b md ge have lt: "\<bar>hx (hs ! k) - v\<bar> < ?d"
        by (simp add: below_def)
      have m': "\<forall>j < length (h # hs). \<bar>hx ((h # hs) ! Suc k) - v\<bar> \<le> \<bar>hx ((h # hs) ! j) - v\<bar>"
      proof (intro allI impI)
        fix j assume "j < length (h # hs)"
        then show "\<bar>hx ((h # hs) ! Suc k) - v\<bar> \<le> \<bar>hx ((h # hs) ! j) - v\<bar>"
          using m lt by (cases j) auto
      qed
      have f': "\<forall>j < Suc k. \<bar>hx ((h # hs) ! Suc k) - v\<bar> < \<bar>hx ((h # hs) ! j) - v\<bar>"
      proof (intro allI impI)
        fix j assume "j < Suc k"
        then show "\<bar>hx ((h # hs) ! Suc k) - v\<bar> < \<bar>hx ((h # hs) ! j) - v\<bar>"
          using f lt by (cases j) auto
      qed
      have "Suc k < length (h # hs) \<and> closest_loop v (h # hs) idx ci md = int (idx + Suc k)
            \<and> below \<bar>hx ((h # hs) ! Suc k) - v\<bar> md"
        using k step r b by simp
      with m' f' show ?thesis by blast
    qed
  qed
qed


lemma closest_index_nearest:
  assumes "hs \<noteq> []"
  shows "\<exists>k < length hs.
           closest_index hs v = int k
           \<and> (\<forall>j < length hs. \<bar>hx (hs ! k) - v\<bar> \<le> \<bar>hx (hs ! j) - v\<bar>)
           \<and> (\<forall>j < k. \<bar>hx (hs ! k) - v\<bar> < \<bar>hx (hs ! j) - v\<bar>)"
proof -
  from assms obtain h where "h \<in> set hs"
    by (cases hs) auto
  then have "\<not> (\<forall>h \<in> set hs. \<not> below \<bar>hx h - v\<bar> None)"
    by (auto simp: below_def)
  with closest_loop_result [of v hs 0 "-1" None] show ?thesis
    by (auto simp: closest_index_def)
qed

lemma closest_index_range:
  "hs \<noteq> [] \<Longrightarrow> 0 \<le> closest_index hs v \<and> nat (closest_index hs v) < length hs"
  using closest_index_nearest [of hs v] by auto

subsection \<open>Headers\<close>

lemma map_hx_assign_year: "map hx (assign_year hs it) = map hx hs"
proof (cases "hs = []")
  case True
  then show ?thesis by (simp add: assign_year_def Let_def)
next
  case False
  from closest_index_range [OF False, of "transform4 it"]
  have "nat (closest_index hs (transform4 it)) < length hs" by simp
  then show ?thesis
    by (simp add: assign_year_def Let_def map_update list_update_same_conv)
qed

lemma map_hx_assign_years: "map hx (assign_years hs yrow) = map hx hs"
  unfolding assign_years_def
  by (induction yrow arbitrary: hs) (simp_all add: map_hx_assign_year)

lemma length_assign_years: "length (assign_years hs yrow) = length hs"
  using map_hx_assign_years [of hs yrow] by (metis length_map)

lemma map_hx_make_headers: "sorted (map hx (make_headers mrow))"
  by (simp add: make_headers_def)

lemma headers_parse:
  "monthRow (sortedRows gi) = Some mrow \<Longrightarrow> yearRow (sortedRows gi) = Some yrow \<Longrightarrow>
   headers (parsePaymentGrid gi) = assign_years (make_headers mrow) yrow"
  by (cases "gi = []") (simp_all add: parsePaymentGrid_def Let_def sortedRows_def group_rows_def object_values_def monthRow_def)

lemma sorted_headers_parse: "sorted (map hx (headers (parsePaymentGrid gi)))"
proof (cases "monthRow (sortedRows gi)")
  case None
  then show ?thesis by (simp add: parse_missing_row empty_grid_def)
next
  case (Some mrow)
  show ?thesis
  proof (cases "yearRow (sortedRows gi)")
    case None
    then show ?thesis by (simp add: parse_missing_row empty_grid_def)
  next
    case (Some yrow)
    with \<open>monthRow (sortedRows gi) = Some mrow\<close> show ?thesis
      by (simp add: headers_parse map_hx_assign_years map_hx_make_headers)
  qed
qed

text \<open>
  Claim C7. The header list of every grid that the parser returns is non-decreasing in x:
  for indices i < j within the list, the x of header i is at most the x of header j.
\<close>

theorem headers_ascending_x:
  assumes "i < j" and "j < length (headers (parsePaymentGrid gi))"
  shows "hx (headers (parsePaymentGrid gi) ! i) \<le> hx (headers (parsePaymentGrid gi) ! j)"
proof -
  have "sorted (map hx (headers (parsePaymentGrid gi)))"
    by (rule sorted_headers_parse)
  with assms have "map hx (headers (parsePaymentGrid gi)) ! i \<le> map hx (headers (parsePaymentGrid gi)) ! j"
    by (simp add: sorted_iff_nth_mono del: nth_map)
  with assms show ?thesis by simp
qed

theorem headers_ascending_x_witness:
  "map hx (headers (parsePaymentGrid unsorted_month_items)) = [100, 150, 200]
   \<and> hx (headers (parsePaymentGrid unsorted_month_items) ! 0)
       \<le> hx (headers (parsePaymentGrid unsorted_month_items) ! 2)"
proof -
  have e: "map hx (headers (parsePaymentGrid unsorted_month_items)) = [100, 150, 200]"
    by code_simp
  then have l: "length (headers (parsePaymentGrid unsorted_month_items)) = 3"
    by (metis length_map length_Cons list.size(3) numeral_3_eq_3)
  have "(0::nat) < 2" by simp
  moreover from l have "2 < length (headers (parsePaymentGrid unsorted_month_items))" by simp
  ultimately have "hx (headers (parsePaymentGrid unsorted_month_items) ! 0)
       \<le> hx (headers (parsePaymentGrid unsorted_month_items) ! 2)"
    by (rule headers_ascending_x)
  with e show ?thesis by simp
qed

subsection \<open>Year assignment\<close>









subsection \<open>Bureau decoding\<close>

lemma length_set_status: "length (set_status hs sts it) = length sts"
  by (simp add: set_status_def Let_def)

lemma length_foldl_set_status: "length (foldl (set_status hs) sts items) = length sts"
  by (induction items arbitrary: sts) (simp_all add: length_set_status)

lemma set_status_nth:
  assumes "c < length hs" and "length sts = length hs"
  shows "set_status hs sts it ! c =
           (if closest_index hs (transform4 it) = int c then js_trim (str it) else sts ! c)"
proof -
  from assms have ne: "hs \<noteq> []" by auto
  from closest_index_nearest [OF ne, of "transform4 it"]
  obtain k where k: "k < length hs" "closest_index hs (transform4 it) = int k" by blast
  with assms show ?thesis
    by (simp add: set_status_def Let_def nth_list_update)
qed

lemma foldl_set_status_nth:
  assumes "c < length hs" and "length sts = length hs"
  shows "foldl (set_status hs) sts items ! c =
           (if filter (\<lambda>it. closest_index hs (transform4 it) = int c) items = [] then sts ! c
            else js_trim (str (last (filter (\<lambda>it. closest_index hs (transform4 it) = int c) items))))"
proof (induction items rule: rev_induct)
  case Nil
  then show ?case by simp
next
  case (snoc it items)
  have "length (foldl (set_status hs) sts items) = length hs"
    using assms by (simp add: length_foldl_set_status)
  from set_status_nth [OF assms(1) this, of it] snoc show ?case
    by simp
qed

text \<open>
  Claim C10. In the status list of a bureau row, the status of a column is the trimmed
  string of the last item, in row order and the label items left out, whose nearest header
  is that column, and the empty string when there is none: a later item overwrites an
  earlier one. In the example an item of white space follows "30" for the same column,
  the column's status is empty, and the grid yields no issue.
\<close>

theorem bureau_last_write_wins:
  "(c < length hs \<longrightarrow>
      bureau_statuses hs b brow ! c =
        (let assigned = filter (\<lambda>it. closest_index hs (transform4 it) = int c)
                          (filter (\<lambda>it. \<not> js_includes (str it) b) brow)
         in if assigned = [] then '''' else js_trim (str (last assigned))))
   \<and> data (parsePaymentGrid overwrite_items) = [(''TransUnion'', ['''', ''OK''])]
   \<and> grid_issues (parsePaymentGrid overwrite_items) = []"
proof (intro conjI impI)
  assume "c < length hs"
  then show "bureau_statuses hs b brow ! c =
        (let assigned = filter (\<lambda>it. closest_index hs (transform4 it) = int c)
                          (filter (\<lambda>it. \<not> js_includes (str it) b) brow)
         in if assigned = [] then '''' else js_trim (str (last assigned)))"
    by (simp add: bureau_statuses_def Let_def foldl_set_status_nth)
next
  show "data (parsePaymentGrid overwrite_items) = [(''TransUnion'', ['''', ''OK''])]"
    by code_simp
next
  show "grid_issues (parsePaymentGrid overwrite_items) = []"
    by code_simp
qed

theorem bureau_last_write_wins_witness:
  "bureau_statuses overwrite_headers ''TransUnion'' overwrite_row ! 0 = ''''"
proof -
  have l: "0 < length overwrite_headers"
    by code_simp
  have f: "filter (\<lambda>it. closest_index overwrite_headers (transform4 it) = int 0)
             (filter (\<lambda>it. \<not> js_includes (str it) ''TransUnion'') overwrite_row) =
           [\<lparr>str = ''30'', page = 1, transform4 = 98, transform5 = 450\<rparr>,
            \<lparr>str = '' '', page = 1, transform4 = 104, transform5 = 450\<rparr>]"
    by code_simp
  have t: "js_trim '' '' = ''''"
    by code_simp
  from bureau_last_write_wins [of 0 overwrite_headers "''TransUnion''" overwrite_row] l
  have "bureau_statuses overwrite_headers ''TransUnion'' overwrite_row ! 0 =
        (let assigned = filter (\<lambda>it. closest_index overwrite_headers (transform4 it) = int 0)
                          (filter (\<lambda>it. \<not> js_includes (str it) ''TransUnion'') overwrite_row)
         in if assigned = [] then '''' else js_trim (str (last assigned)))"
    by blast
  with f t show ?thesis
    by (simp add: Let_def)
qed

subsection \<open>Issues of a row\<close>

lemma status_label_unknown:
  "map_of LEGEND code = None \<Longrightarrow> code \<notin> set object_prototype_keys \<Longrightarrow>
   status_label code = Text (''Unknown Code: '' @ code)"
  by (simp add: status_label_def legend_get_def)

lemma row_issues_acc:
  "row_issues hs b sts i acc = acc @ row_issues hs b sts i []"
proof (induction sts arbitrary: i acc)
  case Nil
  then show ?case by simp
next
  case (Cons st sts)
  show ?case
  proof (cases "js_trim st \<noteq> ''OK'' \<and> js_trim st \<noteq> ''''")
    case True
    let ?x = "\<lparr>bureau = b, imonth = fst (header_at hs i), iyear = snd (header_at hs i),
                status = status_label (js_trim st)\<rparr>"
    from True have "row_issues hs b (st # sts) i acc = row_issues hs b sts (Suc i) (acc @ [?x])"
      by simp
    also have "\<dots> = (acc @ [?x]) @ row_issues hs b sts (Suc i) []"
      by (rule Cons.IH)
    also have "\<dots> = acc @ ([?x] @ row_issues hs b sts (Suc i) [])"
      by simp
    also have "[?x] @ row_issues hs b sts (Suc i) [] = row_issues hs b sts (Suc i) [?x]"
      by (rule Cons.IH [symmetric])
    also have "\<dots> = row_issues hs b (st # sts) i []"
      using True by simp
    finally show ?thesis .
  next
    case False
    then show ?thesis
      using Cons.IH [of "Suc i" acc] by auto
  qed
qed

text \<open>A cell whose trimmed status is neither empty nor "OK" yields an issue with the header
  of its column; the label is "Unknown Code: " and the code when the code is neither a
  key of the table nor a key of \<^verbatim>\<open>Object.prototype\<close>.\<close>

lemma cell_issue:
  assumes "k < length sts" and "js_trim (sts ! k) \<noteq> ''OK''" and "js_trim (sts ! k) \<noteq> ''''"
  shows "\<lparr>bureau = b, imonth = fst (header_at hs (i + k)), iyear = snd (header_at hs (i + k)),
           status = status_label (js_trim (sts ! k))\<rparr> \<in> set (row_issues hs b sts i acc)"
  using assms
proof (induction sts arbitrary: i k acc)
  case Nil
  then show ?case by simp
next
  case (Cons st sts)
  show ?case
  proof (cases k)
    case 0
    let ?x = "\<lparr>bureau = b, imonth = fst (header_at hs i), iyear = snd (header_at hs i),
                status = status_label (js_trim st)\<rparr>"
    from 0 Cons.prems have "js_trim st \<noteq> ''OK'' \<and> js_trim st \<noteq> ''''" by simp
    then have "row_issues hs b (st # sts) i acc = row_issues hs b sts (Suc i) (acc @ [?x])"
      by simp
    also have "\<dots> = (acc @ [?x]) @ row_issues hs b sts (Suc i) []"
      by (rule row_issues_acc)
    finally have "?x \<in> set (row_issues hs b (st # sts) i acc)"
      by simp
    with 0 show ?thesis by simp
  next
    case (Suc k')
    with Cons.prems have "k' < length sts" "js_trim (sts ! k') \<noteq> ''OK''" "js_trim (sts ! k') \<noteq> ''''"
      by simp_all
    from Cons.IH [OF this, of "Suc i"] Suc show ?thesis
      by (cases "js_trim st \<noteq> ''OK'' \<and> js_trim st \<noteq> ''''") simp_all
  qed
qed

lemma unknown_code_issue:
  assumes "k < length sts" and "js_trim (sts ! k) \<noteq> ''OK''" and "js_trim (sts ! k) \<noteq> ''''"
    and "map_of LEGEND (js_trim (sts ! k)) = None"
    and "js_trim (sts ! k) \<notin> set object_prototype_keys"
  shows "\<lparr>bureau = b, imonth = fst (header_at hs k), iyear = snd (header_at hs k),
           status = Text (''Unknown Code: '' @ js_trim (sts ! k))\<rparr> \<in> set (row_issues hs b sts 0 [])"
  using cell_issue [OF assms(1-3), of b hs 0 "[]"] status_label_unknown [OF assms(4,5)]
  by simp

text \<open>
  Claim C5, at the input where the code departs from it. The code "XX" is labelled
  "Unknown Code: XX". The code "constructor" is not a key of the table either, but the
  lookup \<^verbatim>\<open>LEGEND[code]\<close> finds the member that the table object inherits, the
  alternative of \<^verbatim>\<open>||\<close> is not taken, and the status of the issue is that member and
  not the string "Unknown Code: constructor".
\<close>

theorem inherited_key_status:
  "analyzeTextContent unknown_code_items =
     Inr [\<lparr>name = ''Unknown Account'',
           issues = [\<lparr>bureau = ''Experian'', imonth = ''Jan'', iyear = ''2023'',
                      status = Text ''Unknown Code: XX''\<rparr>,
                     \<lparr>bureau = ''Experian'', imonth = ''Feb'', iyear = ''2023'',
                      status = ProtoMember ''constructor''\<rparr>]\<rparr>]
   \<and> map_of LEGEND ''constructor'' = None
   \<and> status_label ''constructor'' \<noteq> Text ''Unknown Code: constructor''"
  by code_simp

subsection \<open>One marker, one issue\<close>


















subsection \<open>Account names\<close>






subsection \<open>Windows moved in x by an exact amount\<close>

lemma moved_item_fields:
  "str (moved_item d item) = str item" "page (moved_item d item) = page item"
  "transform5 (moved_item d item) = transform5 item"
  "transform4 (moved_item d item) = transform4 item + d"
  by (simp_all add: moved_item_def)

lemma insort_key_map:
  "insort_key k (g x) (map g ys) = map g (insort_key (\<lambda>a. k (g a)) x ys)"
  by (induction ys) simp_all

lemma sort_key_map: "sort_key k (map g xs) = map g (sort_key (\<lambda>a. k (g a)) xs)"
  by (induction xs) (simp_all add: insort_key_map)

lemma insort_key_same_order:
  "(\<And>a b. (f a \<le> f b) = (g a \<le> g b)) \<Longrightarrow> insort_key f x ys = insort_key g x ys"
  by (induction ys) simp_all

lemma sort_key_same_order:
  assumes "\<And>a b. (f a \<le> f b) = (g a \<le> g b)"
  shows "sort_key f xs = sort_key g xs"
proof (induction xs)
  case Nil
  then show ?case by simp
next
  case (Cons x xs)
  then show ?case
    using insort_key_same_order [of f g x "sort_key g xs"] assms by simp
qed

lemma find_map: "List.find P (map g xs) = map_option g (List.find (\<lambda>a. P (g a)) xs)"
  by (induction xs) simp_all

lemma rows_push_shift:
  "rows_push (map (apsnd (map g)) rows) k (g item) = map (apsnd (map g)) (rows_push rows k item)"
  by (induction rows) auto

lemma foldl_rows_shift:
  "foldl (\<lambda>rows item. rows_push rows (math_round (transform5 item)) item)
     (map (apsnd (map (moved_item d))) rows) (map (moved_item d) gi) =
   map (apsnd (map (moved_item d)))
     (foldl (\<lambda>rows item. rows_push rows (math_round (transform5 item)) item) rows gi)"
proof (induction gi arbitrary: rows)
  case Nil
  then show ?case by simp
next
  case (Cons item gi)
  show ?case
    using Cons.IH [of "rows_push rows (math_round (transform5 item)) item"]
    by (simp add: moved_item_fields rows_push_shift)
qed

lemma group_rows_shift:
  "group_rows (map (moved_item d) gi) = map (apsnd (map (moved_item d))) (group_rows gi)"
  using foldl_rows_shift [of d "[]" gi] by (simp add: group_rows_def)

lemma object_values_map:
  "object_values (map (apsnd g) rows) = map g (object_values rows)"
proof -
  have s: "sort_key fst (map (apsnd g) xs) = map (apsnd g) (sort_key fst xs)" for xs
    by (simp add: sort_key_map)
  have f: "filter (\<lambda>kv. is_array_index (fst kv)) (map (apsnd g) rows)
           = map (apsnd g) (filter (\<lambda>kv. is_array_index (fst kv)) rows)"
    by (simp add: filter_map comp_def)
  have n: "filter (\<lambda>kv. \<not> is_array_index (fst kv)) (map (apsnd g) rows)
           = map (apsnd g) (filter (\<lambda>kv. \<not> is_array_index (fst kv)) rows)"
    by (simp add: filter_map comp_def)
  show ?thesis
    unfolding object_values_def f n s by (simp add: comp_def)
qed

lemma sortedRows_shift:
  "sortedRows (map (moved_item d) gi) = map (map (moved_item d)) (sortedRows gi)"
proof -
  have "(\<lambda>row. - transform5 (hd (map (moved_item d) row))) = (\<lambda>row. - transform5 (hd row))"
  proof (rule ext)
    fix row :: "text_item list"
    show "- transform5 (hd (map (moved_item d) row)) = - transform5 (hd row)"
      by (cases row) (simp_all add: moved_item_fields)
  qed
  then show ?thesis
    by (simp add: sortedRows_def group_rows_shift object_values_map sort_key_map)
qed

lemma list_ex_shift:
  "(\<And>item. P (moved_item d item) = P item) \<Longrightarrow> list_ex P (map (moved_item d) row) = list_ex P row"
  by (induction row) simp_all

lemma monthRow_shift:
  "monthRow (map (map (moved_item d)) rows) = map_option (map (moved_item d)) (monthRow rows)"
  by (simp add: monthRow_def find_map list_ex_shift is_month_item_def moved_item_fields)

lemma yearRow_shift:
  "yearRow (map (map (moved_item d)) rows) = map_option (map (moved_item d)) (yearRow rows)"
  by (simp add: yearRow_def find_map list_ex_shift is_year_item_def moved_item_fields)

lemma bureauRow_shift:
  "bureauRow b (map (map (moved_item d)) rows) = map_option (map (moved_item d)) (bureauRow b rows)"
  by (simp add: bureauRow_def find_map list_ex_shift moved_item_fields)

lemma make_headers_shift:
  "make_headers (map (moved_item d) mrow) = map (moved_header d) (make_headers mrow)"
proof -
  let ?mk = "\<lambda>monthItem. \<lparr>month = js_trim (str monthItem), hx = transform4 monthItem,
                            year = ''N/A''\<rparr>"
  have a: "map ?mk (map (moved_item d) mrow) = map (moved_header d) (map ?mk mrow)"
    by (simp add: moved_item_fields moved_header_def)
  have "sort_key (\<lambda>h. hx (moved_header d h)) xs = sort_key hx xs" for xs
    by (rule sort_key_same_order) (simp add: moved_header_def)
  then have b: "sort_key hx (map (moved_header d) xs) = map (moved_header d) (sort_key hx xs)" for xs
    by (simp add: sort_key_map)
  show ?thesis
    unfolding make_headers_def a by (rule b)
qed

lemma closest_loop_shift:
  "closest_loop (v + d) (map (moved_header d) hs) idx ci md = closest_loop v hs idx ci md"
proof (induction hs arbitrary: idx ci md)
  case Nil
  then show ?case by simp
next
  case (Cons h hs)
  have "\<bar>hx (moved_header d h) - (v + d)\<bar> = \<bar>hx h - v\<bar>"
    by (simp add: moved_header_def)
  with Cons.IH show ?case
    by (simp add: Let_def)
qed

lemma closest_index_shift:
  "closest_index (map (moved_header d) hs) (v + d) = closest_index hs v"
  by (simp add: closest_index_def closest_loop_shift)

lemma assign_year_shift:
  "assign_year (map (moved_header d) hs) (moved_item d it) = map (moved_header d) (assign_year hs it)"
proof (cases "hs = []")
  case True
  then show ?thesis by (simp add: assign_year_def Let_def)
next
  case False
  from closest_index_range [OF False, of "transform4 it"]
  have k: "nat (closest_index hs (transform4 it)) < length hs" by simp
  have u: "moved_header d (h\<lparr>year := s\<rparr>) = (moved_header d h)\<lparr>year := s\<rparr>" for h s
    by (simp add: moved_header_def)
  from k show ?thesis
    by (simp add: assign_year_def Let_def moved_item_fields closest_index_shift map_update u)
qed

lemma assign_years_shift:
  "assign_years (map (moved_header d) hs) (map (moved_item d) yrow)
   = map (moved_header d) (assign_years hs yrow)"
  unfolding assign_years_def
  by (induction yrow arbitrary: hs) (simp_all add: assign_year_shift)

lemma set_status_shift:
  "set_status (map (moved_header d) hs) sts (moved_item d it) = set_status hs sts it"
  by (simp add: set_status_def Let_def moved_item_fields closest_index_shift)

lemma foldl_set_status_shift:
  "foldl (set_status (map (moved_header d) hs)) sts (map (moved_item d) items)
   = foldl (set_status hs) sts items"
  by (induction items arbitrary: sts) (simp_all add: set_status_shift)

lemma bureau_statuses_shift:
  "bureau_statuses (map (moved_header d) hs) b (map (moved_item d) brow) = bureau_statuses hs b brow"
  by (simp add: bureau_statuses_def filter_map comp_def moved_item_fields foldl_set_status_shift)

lemma processBureauRow_shift:
  "processBureauRow (map (moved_header d) hs) dt (map_option (map (moved_item d)) brow) b
   = processBureauRow hs dt brow b"
  by (cases brow) (simp_all add: processBureauRow_def bureau_statuses_shift)

lemma parsePaymentGrid_shift:
  "parsePaymentGrid (map (moved_item d) gi) =
     \<lparr>headers = map (moved_header d) (headers (parsePaymentGrid gi)),
      data = data (parsePaymentGrid gi)\<rparr>"
proof (cases "monthRow (sortedRows gi) = None \<or> yearRow (sortedRows gi) = None")
  case True
  then have "monthRow (sortedRows (map (moved_item d) gi)) = None
             \<or> yearRow (sortedRows (map (moved_item d) gi)) = None"
    by (auto simp: sortedRows_shift monthRow_shift yearRow_shift)
  with True show ?thesis
    by (simp add: parse_missing_row empty_grid_def)
next
  case False
  then obtain mrow yrow where r: "monthRow (sortedRows gi) = Some mrow" "yearRow (sortedRows gi) = Some yrow"
    by auto
  then have ne: "gi \<noteq> []"
    by (auto simp: sortedRows_def group_rows_def object_values_def monthRow_def)
  from r ne show ?thesis
    by (simp add: parsePaymentGrid_def Let_def sortedRows_shift monthRow_shift yearRow_shift
        bureauRow_shift make_headers_shift assign_years_shift processBureauRow_shift)
qed

subsection \<open>The rounding of the addition\<close>

lemma bit_length_bounds:
  "0 < n \<Longrightarrow> 1 \<le> bit_length n \<and> 2 ^ nat (bit_length n - 1) \<le> n \<and> n < 2 ^ nat (bit_length n)"
proof (induction n rule: bit_length.induct)
  case (1 n)
  from "1.prems" have b: "bit_length n = 1 + bit_length (n div 2)"
    by (simp add: bit_length.simps [of n])
  show ?case
  proof (cases "n div 2 = 0")
    case True
    with "1.prems" have "n = 1" by presburger
    then show ?thesis
      by (simp add: bit_length.simps [of 1] bit_length.simps [of 0])
  next
    case False
    with "1.prems" have pos: "0 < n div 2" by presburger
    from "1.prems" have "\<not> n \<le> 0" by simp
    from "1.IH" [OF this pos]
    have k: "1 \<le> bit_length (n div 2)"
      and lo: "2 ^ nat (bit_length (n div 2) - 1) \<le> n div 2"
      and hi: "n div 2 < 2 ^ nat (bit_length (n div 2))"
      by simp_all
    let ?k = "bit_length (n div 2)"
    from k have e1: "nat ?k = Suc (nat (?k - 1))" and e2: "nat (1 + ?k) = Suc (nat ?k)"
      by simp_all
    have "(2::int) ^ nat ?k = 2 * 2 ^ nat (?k - 1)" by (subst e1) simp
    also have "\<dots> \<le> 2 * (n div 2)" using lo by simp
    also have "\<dots> \<le> n" by presburger
    finally have lo': "(2::int) ^ nat ?k \<le> n" .
    have "n < 2 * (n div 2 + 1)" by presburger
    also have "\<dots> \<le> 2 * 2 ^ nat ?k" using hi by simp
    also have "\<dots> = 2 ^ nat (1 + ?k)" by (subst e2) simp
    finally have hi': "n < 2 ^ nat (1 + ?k)" .
    from k lo' hi' show ?thesis by (simp add: b)
  qed
qed

lemma floor_log2_bounds:
  assumes "0 < x"
  shows "pow2 (floor_log2 x) \<le> x \<and> x < pow2 (floor_log2 x + 1)"
proof (cases "1 \<le> x")
  case True
  then have n: "0 < \<lfloor>x\<rfloor>" by simp
  let ?k = "bit_length \<lfloor>x\<rfloor>"
  from bit_length_bounds [OF n]
  have k: "1 \<le> ?k" and lo: "2 ^ nat (?k - 1) \<le> \<lfloor>x\<rfloor>" and hi: "\<lfloor>x\<rfloor> < 2 ^ nat ?k"
    by simp_all
  from lo have "(2::rat) ^ nat (?k - 1) \<le> of_int \<lfloor>x\<rfloor>"
    by (simp only: numeral_power_le_of_int_cancel_iff)
  also have "\<dots> \<le> x" by (rule of_int_floor_le)
  finally have a: "(2::rat) ^ nat (?k - 1) \<le> x" .
  from hi have "\<lfloor>x\<rfloor> + 1 \<le> 2 ^ nat ?k" by simp
  then have "(of_int (\<lfloor>x\<rfloor> + 1) :: rat) \<le> 2 ^ nat ?k"
    by (simp only: of_int_le_numeral_power_cancel_iff)
  moreover have "x < of_int (\<lfloor>x\<rfloor> + 1)" by linarith
  ultimately have b: "x < (2::rat) ^ nat ?k" by (rule less_le_trans [rotated])
  from True k a b show ?thesis
    by (simp add: floor_log2_def pow2_def)
next
  case False
  with assms have x1: "x < 1" by simp
  let ?y = "1 / x"
  from assms x1 have y1: "1 < ?y" by simp
  then have c: "0 < \<lceil>?y\<rceil> - 1" by linarith
  let ?j = "bit_length (\<lceil>?y\<rceil> - 1)"
  from bit_length_bounds [OF c]
  have j: "1 \<le> ?j" and lo: "2 ^ nat (?j - 1) \<le> \<lceil>?y\<rceil> - 1" and hi: "\<lceil>?y\<rceil> - 1 < 2 ^ nat ?j"
    by simp_all
  from hi have "\<lceil>?y\<rceil> \<le> 2 ^ nat ?j" by simp
  then have "(of_int \<lceil>?y\<rceil> :: rat) \<le> 2 ^ nat ?j"
    by (simp only: of_int_le_numeral_power_cancel_iff)
  moreover have "?y \<le> of_int \<lceil>?y\<rceil>" by (rule le_of_int_ceiling)
  ultimately have "?y \<le> 2 ^ nat ?j" by (rule order_trans [rotated])
  with assms have a: "1 / 2 ^ nat ?j \<le> x"
    by (simp add: field_simps)
  from lo have "(2::rat) ^ nat (?j - 1) \<le> of_int (\<lceil>?y\<rceil> - 1)"
    by (simp only: numeral_power_le_of_int_cancel_iff)
  moreover have "of_int (\<lceil>?y\<rceil> - 1) < ?y" by linarith
  ultimately have "(2::rat) ^ nat (?j - 1) < ?y" by (rule le_less_trans)
  with assms have b: "x < 1 / 2 ^ nat (?j - 1)"
    by (simp add: field_simps)
  have p: "pow2 (- ?j + 1) = 1 / 2 ^ nat (?j - 1)"
  proof (cases "?j = 1")
    case True
    then show ?thesis by (simp add: pow2_def)
  next
    case False
    with j have "\<not> 0 \<le> - ?j + 1" "- (- ?j + 1) = ?j - 1" by simp_all
    then show ?thesis by (simp add: pow2_def)
  qed
  from j have q: "pow2 (- ?j) = 1 / 2 ^ nat ?j"
    by (simp add: pow2_def)
  from False a b p q show ?thesis
    by (simp add: floor_log2_def)
qed

lemma round_half_even_nearest: "\<bar>of_int (round_half_even r) - r\<bar> \<le> 1 / 2"
proof -
  have "of_int \<lfloor>r\<rfloor> \<le> r" "r < of_int \<lfloor>r\<rfloor> + 1" by linarith+
  then show ?thesis
    by (auto simp: round_half_even_def Let_def)
qed

lemma pow2_pos: "0 < pow2 k"
  by (simp add: pow2_def)

lemma scaled_error:
  fixes m a p :: rat
  assumes "0 < p" and "\<bar>m - a / p\<bar> \<le> 1 / 2"
  shows "\<bar>m * p - a\<bar> \<le> p / 2"
proof -
  from assms(1) have "m * p - a = (m - a / p) * p"
    by (simp add: field_simps)
  then have "\<bar>m * p - a\<bar> = \<bar>m - a / p\<bar> * p"
    using assms(1) by (simp add: abs_mult)
  also have "\<dots> \<le> 1 / 2 * p"
    using assms by (simp only: mult_le_cancel_right_pos)
  finally show ?thesis by simp
qed

lemma signed_error:
  fixes x c :: rat
  assumes "x \<noteq> 0"
  shows "\<bar>sgn x * c - x\<bar> = \<bar>c - \<bar>x\<bar>\<bar>"
proof (cases "0 < x")
  case True
  then show ?thesis by simp
next
  case False
  with assms have "x < 0" by simp
  then have "sgn x * c - x = - (c - \<bar>x\<bar>)" by simp
  then show ?thesis by (simp only: abs_minus)
qed

text \<open>The rounded value is within half a unit of the last place of the argument.\<close>

lemma to_double_error:
  assumes "to_double x = Some r"
  shows "\<bar>r - x\<bar> \<le> pow2 (max (floor_log2 \<bar>x\<bar> - 52) (- 1074)) / 2"
proof (cases "x = 0")
  case True
  with assms have "r = 0" by (simp add: to_double_def)
  with True show ?thesis
    using pow2_pos [of "max (floor_log2 \<bar>x\<bar> - 52) (- 1074)"] by simp
next
  case False
  define e where "e = max (floor_log2 \<bar>x\<bar> - 52) (- 1074)"
  define m where "m = round_half_even (\<bar>x\<bar> / pow2 e)"
  from assms False have r: "r = sgn x * (of_int m * pow2 e)"
    unfolding e_def m_def by (simp add: to_double_def Let_def split: if_splits)
  have "\<bar>of_int m - \<bar>x\<bar> / pow2 e\<bar> \<le> 1 / 2"
    unfolding m_def by (rule round_half_even_nearest)
  with pow2_pos have "\<bar>of_int m * pow2 e - \<bar>x\<bar>\<bar> \<le> pow2 e / 2"
    by (rule scaled_error)
  with signed_error [OF False, of "of_int m * pow2 e"] show ?thesis
    unfolding r e_def by simp
qed

subsection \<open>Shifts that do not round\<close>

lemma shift_window_exact:
  "\<forall>item \<in> set gi. js_add (transform4 item) d = Some (transform4 item + d) \<Longrightarrow>
   shift_window d gi = Some (map (moved_item d) gi)"
  by (induction gi) (simp_all add: shift_item_def moved_item_def)

lemma shift_headers_exact:
  "\<forall>h \<in> set hs. js_add (hx h) d = Some (hx h + d) \<Longrightarrow>
   shift_headers d hs = Some (map (moved_header d) hs)"
  by (induction hs) (simp_all add: shift_header_def moved_header_def)

text \<open>
  Claim C6, as amended. When the program adds a constant d to the x-coordinate of every
  item of a window and no sum is rounded (each shifted coordinate is the exact sum x + d),
  the grid parsed from the shifted window has the same status lists for every bureau and
  the same months and years as the grid of the original window, and its headers are the
  original headers moved by d. Under the same condition on the headers and on an item,
  the index of the header nearest to the item is unchanged.
\<close>

theorem exact_shift_keeps_columns:
  assumes "shift_window d gi = Some gi'"
    and "\<forall>item \<in> set gi. js_add (transform4 item) d = Some (transform4 item + d)"
  shows "data (parsePaymentGrid gi') = data (parsePaymentGrid gi)
         \<and> map year (headers (parsePaymentGrid gi')) = map year (headers (parsePaymentGrid gi))
         \<and> map month (headers (parsePaymentGrid gi')) = map month (headers (parsePaymentGrid gi))
         \<and> map hx (headers (parsePaymentGrid gi'))
             = map (\<lambda>v. v + d) (map hx (headers (parsePaymentGrid gi)))
         \<and> (\<forall>hs hs' v.
               shift_headers d hs = Some hs'
               \<and> (\<forall>h \<in> set hs. js_add (hx h) d = Some (hx h + d))
               \<and> js_add v d = Some (v + d)
               \<longrightarrow> closest_index hs' (v + d) = closest_index hs v)"
proof -
  from assms have g: "gi' = map (moved_item d) gi"
    by (simp add: shift_window_exact)
  have c: "year \<circ> moved_header d = year" "month \<circ> moved_header d = month"
    "hx \<circ> moved_header d = (\<lambda>v. v + d) \<circ> hx"
    by (rule ext, simp add: moved_header_def)+
  have h: "closest_index hs' (v + d) = closest_index hs v"
    if "shift_headers d hs = Some hs'
               \<and> (\<forall>h \<in> set hs. js_add (hx h) d = Some (hx h + d))
               \<and> js_add v d = Some (v + d)" for hs hs' v
  proof -
    from that shift_headers_exact [of hs d] have "hs' = map (moved_header d) hs"
      by auto
    then show ?thesis by (simp add: closest_index_shift)
  qed
  from c h show ?thesis
    unfolding g by (simp add: parsePaymentGrid_shift)
qed

theorem exact_shift_keeps_columns_witness:
  "shift_window (1 / 4) tie_items = Some tie_items_plus_quarter
   \<and> data (parsePaymentGrid tie_items_plus_quarter) = [(''TransUnion'', [''30'', ''''])]
   \<and> map year (headers (parsePaymentGrid tie_items_plus_quarter)) = [''2023'', ''2023'']"
proof -
  have s: "shift_window (1 / 4) tie_items = Some tie_items_plus_quarter"
    by code_simp
  have e: "\<forall>item \<in> set tie_items. js_add (transform4 item) (1 / 4) = Some (transform4 item + 1 / 4)"
    by code_simp
  have o: "data (parsePaymentGrid tie_items) = [(''TransUnion'', [''30'', ''''])]"
    "map year (headers (parsePaymentGrid tie_items)) = [''2023'', ''2023'']"
    by code_simp+
  from exact_shift_keeps_columns [OF s e] s o show ?thesis
    by simp
qed

text \<open>
  Claim C6 as stated fails, for the sums are rounded. In the window of the example the
  item "30" at x = 125 is at distance 25 from both headers, at 100 and 150, and goes to
  the first. Adding the number 0.2 gives the coordinates 100.2, 125.2 and 150.2 as
  binary64 numbers; their distances are 25 and a little less than 25, and the item goes
  to the second header.
\<close>

theorem rounded_shift_moves_column_counterexample:
  "to_double (1 / 5) = Some (3602879701896397 / 18014398509481984)
   \<and> shift_window (3602879701896397 / 18014398509481984) tie_items = Some tie_items_plus_0_2
   \<and> data (parsePaymentGrid tie_items) = [(''TransUnion'', [''30'', ''''])]
   \<and> data (parsePaymentGrid tie_items_plus_0_2) = [(''TransUnion'', ['''', ''30''])]"
  by code_simp

end
